theory Spec2Isabelle
  imports Complex_Main
begin

section \<open>JavaScript values\<close>

text \<open>
  The two source files are a React function component \<^verbatim>\<open>Counter\<close> (the remote
  application) and the host's \<^verbatim>\<open>App\<close> in \<^verbatim>\<open>bootstrap.js\<close>. Both are
  JavaScript, so the values they pass around are JavaScript values.

  A JavaScript number is an IEEE 754 binary64 value. The finite ones are rationals;
  \<open>NaN\<close> and the two infinities are values of their own.
\<close>

datatype jsnum = NaN | PosInfinity | NegInfinity | Finite rat

datatype jserror =
    ListenerNotAFunction
  | LazyRejected
  | Uncaught string

text \<open>
  A function value is modelled by its effect on the state \<open>'s\<close> it closes over: it
  either returns, leaving a new state, or throws. The event object React passes to a
  listener is not modelled (neither source file reads it).
\<close>

datatype 's jsval =
    JUndefined
  | JNull
  | JBool bool
  | JNum jsnum
  | JStr string
  | JFun "'s \<Rightarrow> jserror + 's"

subsection \<open>Numbers as text\<close>

fun dec_digits :: "nat \<Rightarrow> string" where
  "dec_digits n =
     (if n < 10 then [''0123456789'' ! n]
      else dec_digits (n div 10) @ [''0123456789'' ! (n mod 10)])"

declare dec_digits.simps [simp del]

definition int_to_string :: "int \<Rightarrow> string" where
  "int_to_string i =
     (if i < 0 then CHR ''-'' # dec_digits (nat (- i)) else dec_digits (nat i))"

text \<open>
  The integers a binary64 value holds exactly, one by one, are those of magnitude up
  to \<open>2 ^ 53\<close>; their string form is their decimal numeral.
\<close>

definition is_safe_integer :: "rat \<Rightarrow> bool" where
  "is_safe_integer q \<longleftrightarrow> of_int \<lfloor>q\<rfloor> = q \<and> \<bar>q\<bar> \<le> 2 ^ 53"

text \<open>
  \<open>Number::toString\<close>. For the other finite numbers (non-integers, and magnitudes
  above \<open>2 ^ 53\<close>) the digits are the shortest ones that read back as the same
  binary64 value; that conversion belongs to the language runtime and is the parameter
  \<open>fmt\<close>.
\<close>

definition number_to_string :: "(rat \<Rightarrow> string) \<Rightarrow> jsnum \<Rightarrow> string" where
  "number_to_string fmt x =
     (case x of
        NaN \<Rightarrow> ''NaN''
      | PosInfinity \<Rightarrow> ''Infinity''
      | NegInfinity \<Rightarrow> ''-Infinity''
      | Finite q \<Rightarrow> if is_safe_integer q then int_to_string \<lfloor>q\<rfloor> else fmt q)"

subsection \<open>Arithmetic on integer-valued numbers\<close>

text \<open>
  The host only ever adds and subtracts \<open>1\<close>, starting from \<open>0\<close>, so its numbers
  are integer-valued and are kept as \<open>int\<close>. The result of \<open>+\<close> and \<open>-\<close> is the
  exact result rounded to the nearest binary64 value, ties to the even significand: a
  magnitude of more than 53 bits loses its low bits. (Magnitudes from \<open>2 ^ 1024\<close> on
  would round to an infinity; the host stays far below.)
\<close>

fun excess_bits :: "nat \<Rightarrow> nat" where
  "excess_bits m = (if m < 2 ^ 53 then 0 else Suc (excess_bits (m div 2)))"

declare excess_bits.simps [simp del]

definition to_double :: "int \<Rightarrow> int" where
  "to_double x =
     (let m = nat \<bar>x\<bar>;
          d = 2 ^ excess_bits m;
          q = m div d;
          r = m mod d;
          q' = (if 2 * r < d \<or> (2 * r = d \<and> even q) then q else q + 1)
      in sgn x * int (q' * d))"

definition js_add :: "int \<Rightarrow> int \<Rightarrow> int" where
  "js_add a b = to_double (a + b)"

definition js_sub :: "int \<Rightarrow> int \<Rightarrow> int" where
  "js_sub a b = to_double (a - b)"

section \<open>React elements and what the page shows\<close>

text \<open>
  What a component returns: a child value (a string or a number written into the
  JSX), a host element with its tag, its attributes and its children, or a fragment
  \<^verbatim>\<open><>...</>\<close>.
\<close>

datatype 's node =
    Leaf "'s jsval"
  | Element string "(string \<times> 's jsval) list" "'s node list"
  | Fragment "'s node list"

text \<open>
  React writes a string child as it is and a number child as its string form;
  \<^verbatim>\<open>undefined\<close>, \<^verbatim>\<open>null\<close>, booleans and functions leave no text.
\<close>

definition child_text :: "(rat \<Rightarrow> string) \<Rightarrow> 's jsval \<Rightarrow> string" where
  "child_text fmt v =
     (case v of
        JStr s \<Rightarrow> s
      | JNum x \<Rightarrow> number_to_string fmt x
      | _ \<Rightarrow> [])"

fun text_content :: "(rat \<Rightarrow> string) \<Rightarrow> 's node \<Rightarrow> string" where
  "text_content fmt (Leaf v) = child_text fmt v"
| "text_content fmt (Element t as cs) = concat (map (text_content fmt) cs)"
| "text_content fmt (Fragment cs) = concat (map (text_content fmt) cs)"

text \<open>All nodes of a tree, in document order.\<close>

fun nodes :: "'s node \<Rightarrow> 's node list" where
  "nodes (Leaf v) = [Leaf v]"
| "nodes (Element t as cs) = Element t as cs # concat (map nodes cs)"
| "nodes (Fragment cs) = Fragment cs # concat (map nodes cs)"

definition is_tag :: "string \<Rightarrow> 's node \<Rightarrow> bool" where
  "is_tag t n = (case n of Element t' as cs \<Rightarrow> t' = t | _ \<Rightarrow> False)"

definition attribute :: "string \<Rightarrow> 's node \<Rightarrow> 's jsval" where
  "attribute name n =
     (case n of
        Element t as cs \<Rightarrow> (case map_of as name of Some v \<Rightarrow> v | None \<Rightarrow> JUndefined)
      | _ \<Rightarrow> JUndefined)"

text \<open>Every attribute value of every element of a tree.\<close>

fun attribute_values :: "'s node \<Rightarrow> 's jsval list" where
  "attribute_values (Leaf v) = []"
| "attribute_values (Element t as cs) = map snd as @ concat (map attribute_values cs)"
| "attribute_values (Fragment cs) = concat (map attribute_values cs)"

text \<open>The control a user activates is found by its label: the first button that shows it.\<close>

definition find_control :: "(rat \<Rightarrow> string) \<Rightarrow> string \<Rightarrow> 's node \<Rightarrow> 's node option" where
  "find_control fmt label v =
     find (\<lambda>n. is_tag ''button'' n \<and> text_content fmt n = label) (nodes v)"

definition truthy :: "'s jsval \<Rightarrow> bool" where
  "truthy v =
     (case v of
        JUndefined \<Rightarrow> False
      | JNull \<Rightarrow> False
      | JBool b \<Rightarrow> b
      | JNum x \<Rightarrow> x \<noteq> NaN \<and> x \<noteq> Finite 0
      | JStr s \<Rightarrow> s \<noteq> []
      | JFun f \<Rightarrow> True)"

text \<open>
  React's dispatch of a click to the \<^verbatim>\<open>onClick\<close> of the element: a function is
  called; a falsy value is no listener; any other value is refused with an error.
\<close>

definition dispatch :: "'s jsval \<Rightarrow> 's \<Rightarrow> jserror + 's" where
  "dispatch l s =
     (case l of
        JFun f \<Rightarrow> f s
      | _ \<Rightarrow> if truthy l then Inl ListenerNotAFunction else Inr s)"

text \<open>
  Activating the control labelled \<open>label\<close> of the view \<open>v\<close> in state \<open>s\<close>:
  \<open>None\<close> when the view has no such control.
\<close>

definition activate ::
  "(rat \<Rightarrow> string) \<Rightarrow> string \<Rightarrow> 's node \<Rightarrow> 's \<Rightarrow> (jserror + 's) option" where
  "activate fmt label v s =
     (case find_control fmt label v of
        None \<Rightarrow> None
      | Some b \<Rightarrow> Some (dispatch (attribute ''onClick'' b) s))"

section \<open>The remote component: Counter\<close>

text \<open>
  A props object; reading a property that is absent gives \<^verbatim>\<open>undefined\<close>.
\<close>

type_synonym 's props = "string \<rightharpoonup> 's jsval"

definition get_prop :: "'s props \<Rightarrow> string \<Rightarrow> 's jsval" where
  "get_prop props k = (case props k of Some v \<Rightarrow> v | None \<Rightarrow> JUndefined)"

text \<open>
  \<^verbatim>\<open>
  function Counter(props) {
    return (
      <>
        <p>Count: {props.count}</p>
        <button onClick={props.onIncrement}>Increment</button>
        <button onClick={props.onDecrement}>Decrement</button>
      </>
    );
  }
  \<close>
\<close>

definition Counter :: "'s props \<Rightarrow> 's node" where
  "Counter props =
     Fragment
       [Element ''p'' [] [Leaf (JStr ''Count: ''), Leaf (get_prop props ''count'')],
        Element ''button'' [(''onClick'', get_prop props ''onIncrement'')]
          [Leaf (JStr ''Increment'')],
        Element ''button'' [(''onClick'', get_prop props ''onDecrement'')]
          [Leaf (JStr ''Decrement'')]]"

subsection \<open>The body of the component, evaluated with its effects\<close>

text \<open>
  \<open>Counter\<close> above is the value the function returns. To say that computing it has no
  effect, the body is also kept as the expression it is and evaluated in a state: an
  expression reads a property of \<open>props\<close> or calls a function value, a call runs the
  function on the state and may throw, and a JSX element evaluates its attributes and
  then its children, left to right.
\<close>

datatype vexpr = StrLit string | PropRead string | CallExpr vexpr

datatype jsx =
    JsxText string
  | JsxExpr vexpr
  | JsxElement string "(string \<times> vexpr) list" "jsx list"
  | JsxFragment "jsx list"

fun eval_expr :: "'s props \<Rightarrow> vexpr \<Rightarrow> 's \<Rightarrow> jserror + ('s jsval \<times> 's)" where
  "eval_expr props (StrLit t) s = Inr (JStr t, s)"
| "eval_expr props (PropRead k) s = Inr (get_prop props k, s)"
| "eval_expr props (CallExpr e) s =
     (case eval_expr props e s of
        Inl err \<Rightarrow> Inl err
      | Inr (JFun f, s1) \<Rightarrow>
          (case f s1 of Inl err \<Rightarrow> Inl err | Inr s2 \<Rightarrow> Inr (JUndefined, s2))
      | Inr (_, s1) \<Rightarrow> Inl (Uncaught ''TypeError: not a function''))"

fun eval_attributes ::
  "'s props \<Rightarrow> (string \<times> vexpr) list \<Rightarrow> 's \<Rightarrow> jserror + ((string \<times> 's jsval) list \<times> 's)" where
  "eval_attributes props [] s = Inr ([], s)"
| "eval_attributes props ((name, e) # as) s =
     (case eval_expr props e s of
        Inl err \<Rightarrow> Inl err
      | Inr (v, s1) \<Rightarrow>
          (case eval_attributes props as s1 of
             Inl err \<Rightarrow> Inl err
           | Inr (vs, s2) \<Rightarrow> Inr ((name, v) # vs, s2)))"

fun eval_jsx :: "'s props \<Rightarrow> jsx \<Rightarrow> 's \<Rightarrow> jserror + ('s node \<times> 's)"
  and eval_children :: "'s props \<Rightarrow> jsx list \<Rightarrow> 's \<Rightarrow> jserror + ('s node list \<times> 's)" where
  "eval_jsx props (JsxText t) s = Inr (Leaf (JStr t), s)"
| "eval_jsx props (JsxExpr e) s =
     (case eval_expr props e s of Inl err \<Rightarrow> Inl err | Inr (v, s1) \<Rightarrow> Inr (Leaf v, s1))"
| "eval_jsx props (JsxElement t as cs) s =
     (case eval_attributes props as s of
        Inl err \<Rightarrow> Inl err
      | Inr (vs, s1) \<Rightarrow>
          (case eval_children props cs s1 of
             Inl err \<Rightarrow> Inl err
           | Inr (ns, s2) \<Rightarrow> Inr (Element t vs ns, s2)))"
| "eval_jsx props (JsxFragment cs) s =
     (case eval_children props cs s of
        Inl err \<Rightarrow> Inl err
      | Inr (ns, s1) \<Rightarrow> Inr (Fragment ns, s1))"
| "eval_children props [] s = Inr ([], s)"
| "eval_children props (c # cs) s =
     (case eval_jsx props c s of
        Inl err \<Rightarrow> Inl err
      | Inr (n, s1) \<Rightarrow>
          (case eval_children props cs s1 of
             Inl err \<Rightarrow> Inl err
           | Inr (ns, s2) \<Rightarrow> Inr (n # ns, s2)))"

text \<open>The \<^verbatim>\<open>return\<close> expression of \<^verbatim>\<open>Counter\<close>, as written in the source.\<close>

definition Counter_body :: jsx where
  "Counter_body =
     JsxFragment
       [JsxElement ''p'' [] [JsxText ''Count: '', JsxExpr (PropRead ''count'')],
        JsxElement ''button'' [(''onClick'', PropRead ''onIncrement'')] [JsxText ''Increment''],
        JsxElement ''button'' [(''onClick'', PropRead ''onDecrement'')] [JsxText ''Decrement'']]"

section \<open>The host: App\<close>

text \<open>The state \<^verbatim>\<open>useState(0)\<close> keeps for \<^verbatim>\<open>App\<close>.\<close>

record host_state =
  count :: int

definition initial_state :: host_state where
  "initial_state = \<lparr>count = 0\<rparr>"

definition setCount :: "int \<Rightarrow> host_state \<Rightarrow> jserror + host_state" where
  "setCount v st = Inr (st\<lparr>count := v\<rparr>)"

text \<open>
  \<^verbatim>\<open>React.lazy(() => import('app2/Counter'))\<close>: the import is pending, has resolved
  to the remote's \<^verbatim>\<open>Counter\<close>, or was rejected. Rendering the lazy component
  suspends while the import is pending and throws when it was rejected.
\<close>

datatype lazy_status = Pending | Resolved | Rejected

datatype 'a rendering = Rendered 'a | Suspended | Threw jserror

definition lazy_Counter :: "lazy_status \<Rightarrow> 's props \<Rightarrow> 's node rendering" where
  "lazy_Counter lz props =
     (case lz of
        Pending \<Rightarrow> Suspended
      | Resolved \<Rightarrow> Rendered (Counter props)
      | Rejected \<Rightarrow> Threw LazyRejected)"

definition Suspense :: "string \<Rightarrow> 's node rendering \<Rightarrow> 's node rendering" where
  "Suspense fallback child =
     (case child of
        Suspended \<Rightarrow> Rendered (Leaf (JStr fallback))
      | Rendered v \<Rightarrow> Rendered v
      | Threw e \<Rightarrow> Threw e)"

text \<open>
  \<^verbatim>\<open>
  function App() {
    const [count, setCount] = useState(0);
    return (
      <>
        <h1>Hello from React component</h1>
        <React.Suspense fallback='Loading Counter...'>
          <Counter
            count={count}
            onIncrement={() => setCount(count + 1)}
            onDecrement={() => setCount(count - 1)}
          />
        </React.Suspense>
      </>
    );
  }
  \<close>
  The two arrow functions close over the \<open>count\<close> of the render that creates them.
\<close>

definition Counter_props :: "host_state \<Rightarrow> host_state props" where
  "Counter_props st =
     (let c = count st
      in [''count'' \<mapsto> JNum (Finite (of_int c)),
          ''onIncrement'' \<mapsto> JFun (\<lambda>s. setCount (js_add c 1) s),
          ''onDecrement'' \<mapsto> JFun (\<lambda>s. setCount (js_sub c 1) s)])"

definition App :: "host_state \<Rightarrow> lazy_status \<Rightarrow> host_state node rendering" where
  "App st lz =
     (case Suspense ''Loading Counter...'' (lazy_Counter lz (Counter_props st)) of
        Rendered c \<Rightarrow>
          Rendered (Fragment [Element ''h1'' [] [Leaf (JStr ''Hello from React component'')], c])
      | Suspended \<Rightarrow> Suspended
      | Threw e \<Rightarrow> Threw e)"

subsection \<open>The mounted application\<close>

text \<open>
  \<^verbatim>\<open>ReactDOM.render(<App />, ...)\<close> mounts the application: the state is created, the
  import of the remote starts, and the first render is on the screen. Afterwards the
  import settles, once, and the user activates controls of the screen; React renders
  again after each of the two. A listener that throws leaves the exception uncaught.
\<close>

record host =
  hooks :: host_state
  remote :: lazy_status
  screen :: "host_state node rendering"

definition render :: "host \<Rightarrow> host" where
  "render H = H\<lparr>screen := App (hooks H) (remote H)\<rparr>"

definition mount :: host where
  "mount = \<lparr>hooks = initial_state, remote = Pending, screen = App initial_state Pending\<rparr>"

datatype event = Resolve | Reject | Activate string

fun step :: "(rat \<Rightarrow> string) \<Rightarrow> host \<Rightarrow> event \<Rightarrow> jserror + host" where
  "step fmt H Resolve =
     Inr (if remote H = Pending then render (H\<lparr>remote := Resolved\<rparr>) else H)"
| "step fmt H Reject =
     Inr (if remote H = Pending then render (H\<lparr>remote := Rejected\<rparr>) else H)"
| "step fmt H (Activate label) =
     (case screen H of
        Rendered v \<Rightarrow>
          (case activate fmt label v (hooks H) of
             None \<Rightarrow> Inr H
           | Some (Inl e) \<Rightarrow> Inl e
           | Some (Inr st') \<Rightarrow> Inr (render (H\<lparr>hooks := st'\<rparr>)))
      | _ \<Rightarrow> Inr H)"

fun run :: "(rat \<Rightarrow> string) \<Rightarrow> host \<Rightarrow> event list \<Rightarrow> jserror + host" where
  "run fmt H [] = Inr H"
| "run fmt H (e # es) =
     (case step fmt H e of Inl x \<Rightarrow> Inl x | Inr H' \<Rightarrow> run fmt H' es)"

inductive reachable :: "(rat \<Rightarrow> string) \<Rightarrow> host \<Rightarrow> bool" for fmt where
  reachable_mount: "reachable fmt mount"
| reachable_step: "reachable fmt H \<Longrightarrow> step fmt H e = Inr H' \<Longrightarrow> reachable fmt H'"

text \<open>The text of the paragraph on the screen, if there is one.\<close>

definition displayed_count :: "(rat \<Rightarrow> string) \<Rightarrow> host \<Rightarrow> string option" where
  "displayed_count fmt H =
     (case screen H of
        Rendered v \<Rightarrow> map_option (text_content fmt) (find (is_tag ''p'') (nodes v))
      | _ \<Rightarrow> None)"

definition increment :: event where
  "increment = Activate ''Increment''"

definition decrement :: event where
  "decrement = Activate ''Decrement''"

text \<open>The host right after the import has resolved, before any activation.\<close>

definition resolved_mount :: host where
  "resolved_mount = render (mount\<lparr>remote := Resolved\<rparr>)"

text \<open>
  The number of \<open>increment\<close> activations of a sequence minus the number of its
  \<open>decrement\<close> activations.
\<close>

definition net :: "event list \<Rightarrow> int" where
  "net acts = int (count_list acts increment) - int (count_list acts decrement)"

section \<open>Basic facts\<close>

lemma dec_digits_0: "dec_digits 0 = ''0''"
  by (simp add: dec_digits.simps)

lemma excess_bits_small: "m < 9007199254740992 \<Longrightarrow> excess_bits m = 0"
  by (simp add: excess_bits.simps)

lemma excess_bits_limit: "excess_bits 9007199254740992 = 1"
  by (simp add: excess_bits.simps)

lemma excess_bits_above: "excess_bits 9007199254740993 = 1"
  by (simp add: excess_bits.simps)

lemma to_double_safe: "\<bar>x\<bar> \<le> 9007199254740992 \<Longrightarrow> to_double x = x"
proof (cases "\<bar>x\<bar> = 9007199254740992")
  case True
  then have "nat \<bar>x\<bar> = 9007199254740992" by simp
  then show ?thesis
    using True by (auto simp add: to_double_def excess_bits_limit Let_def sgn_if)
next
  case False
  assume "\<bar>x\<bar> \<le> 9007199254740992"
  with False have "nat \<bar>x\<bar> < 9007199254740992" by simp
  then show ?thesis
    by (auto simp add: to_double_def excess_bits_small Let_def sgn_if)
qed

lemma to_double_above: "to_double 9007199254740993 = 9007199254740992"
  by (simp add: to_double_def excess_bits_above Let_def)

lemma to_double_below: "to_double (- 9007199254740993) = - 9007199254740992"
  by (simp add: to_double_def excess_bits_above Let_def)

subsection \<open>The Counter's view and the host's screens\<close>

lemma find_control_Counter_Increment:
  "find_control fmt ''Increment'' (Counter props) =
     Some (Element ''button'' [(''onClick'', get_prop props ''onIncrement'')] [Leaf (JStr ''Increment'')])"
  by (simp add: find_control_def Counter_def is_tag_def child_text_def)

lemma find_control_Counter_Decrement:
  "find_control fmt ''Decrement'' (Counter props) =
     Some (Element ''button'' [(''onClick'', get_prop props ''onDecrement'')] [Leaf (JStr ''Decrement'')])"
  by (simp add: find_control_def Counter_def is_tag_def child_text_def)

lemma find_control_Counter_other:
  "label \<noteq> ''Increment'' \<Longrightarrow> label \<noteq> ''Decrement'' \<Longrightarrow> find_control fmt label (Counter props) = None"
  by (auto simp add: find_control_def Counter_def is_tag_def child_text_def)

lemma activate_Counter_Increment:
  "activate fmt ''Increment'' (Counter props) s = Some (dispatch (get_prop props ''onIncrement'') s)"
  by (simp add: activate_def find_control_Counter_Increment attribute_def)

lemma activate_Counter_Decrement:
  "activate fmt ''Decrement'' (Counter props) s = Some (dispatch (get_prop props ''onDecrement'') s)"
  by (simp add: activate_def find_control_Counter_Decrement attribute_def)

lemma App_Pending:
  "App st Pending =
     Rendered (Fragment [Element ''h1'' [] [Leaf (JStr ''Hello from React component'')],
                         Leaf (JStr ''Loading Counter...'')])"
  by (simp add: App_def Suspense_def lazy_Counter_def)

lemma App_Resolved:
  "App st Resolved =
     Rendered (Fragment [Element ''h1'' [] [Leaf (JStr ''Hello from React component'')],
                         Counter (Counter_props st)])"
  by (simp add: App_def Suspense_def lazy_Counter_def)

lemma App_Rejected: "App st Rejected = Threw LazyRejected"
  by (simp add: App_def Suspense_def lazy_Counter_def)

lemma find_control_in_App:
  "find_control fmt label (Fragment [Element ''h1'' [] [Leaf (JStr t)], Counter props]) =
     find_control fmt label (Counter props)"
  by (simp add: find_control_def is_tag_def Counter_def)

lemma find_control_fallback:
  "find_control fmt label (Fragment [Element ''h1'' [] [Leaf (JStr t)], Leaf (JStr fb)]) = None"
  by (simp add: find_control_def is_tag_def)

lemma activate_in_App:
  "activate fmt label (Fragment [Element ''h1'' [] [Leaf (JStr t)], Counter props]) s =
     activate fmt label (Counter props) s"
  by (simp add: activate_def find_control_in_App)

lemma is_safe_integer_of_int: "is_safe_integer (of_int c) \<longleftrightarrow> \<bar>c\<bar> \<le> 9007199254740992"
proof -
  have "\<bar>(of_int c)::rat\<bar> = of_int \<bar>c\<bar>" by simp
  moreover have "((of_int \<bar>c\<bar>)::rat) \<le> of_int 9007199254740992 \<longleftrightarrow> \<bar>c\<bar> \<le> 9007199254740992"
    by (rule of_int_le_iff)
  ultimately show ?thesis by (simp add: is_safe_integer_def)
qed

lemma number_to_string_safe:
  "\<bar>c\<bar> \<le> 9007199254740992 \<Longrightarrow> number_to_string fmt (Finite (of_int c)) = int_to_string c"
  by (simp add: number_to_string_def is_safe_integer_of_int)

lemma text_paragraph:
  "text_content fmt (Element ''p'' [] [Leaf (JStr ''Count: ''), Leaf (JNum x)]) =
     ''Count: '' @ number_to_string fmt x"
  by (simp add: child_text_def)

lemma find_p_Counter:
  "find (is_tag ''p'') (nodes (Counter props)) =
     Some (Element ''p'' [] [Leaf (JStr ''Count: ''), Leaf (get_prop props ''count'')])"
  by (simp add: Counter_def is_tag_def)

lemma find_p_App:
  "find (is_tag ''p'') (nodes (Fragment [Element ''h1'' [] [Leaf (JStr t)], Counter props])) =
     Some (Element ''p'' [] [Leaf (JStr ''Count: ''), Leaf (get_prop props ''count'')])"
  by (simp add: Counter_def is_tag_def)

lemma get_prop_count: "get_prop (Counter_props st) ''count'' = JNum (Finite (of_int (count st)))"
  by (simp add: get_prop_def Counter_props_def Let_def)

lemma get_prop_onIncrement:
  "get_prop (Counter_props st) ''onIncrement'' = JFun (setCount (js_add (count st) 1))"
  by (simp add: get_prop_def Counter_props_def Let_def)

lemma get_prop_onDecrement:
  "get_prop (Counter_props st) ''onDecrement'' = JFun (setCount (js_sub (count st) 1))"
  by (simp add: get_prop_def Counter_props_def Let_def)


lemma step_increment_Resolved:
  assumes "remote H = Resolved" and "screen H = App (hooks H) Resolved"
  shows "step fmt H increment =
           Inr (render (H\<lparr>hooks := (hooks H)\<lparr>count := js_add (count (hooks H)) 1\<rparr>\<rparr>))"
  using assms
  by (simp add: increment_def App_Resolved activate_in_App activate_Counter_Increment
      get_prop_onIncrement dispatch_def setCount_def)

lemma step_decrement_Resolved:
  assumes "remote H = Resolved" and "screen H = App (hooks H) Resolved"
  shows "step fmt H decrement =
           Inr (render (H\<lparr>hooks := (hooks H)\<lparr>count := js_sub (count (hooks H)) 1\<rparr>\<rparr>))"
  using assms
  by (simp add: decrement_def App_Resolved activate_in_App activate_Counter_Decrement
      get_prop_onDecrement dispatch_def setCount_def)

lemma step_Activate_other:
  assumes "screen H = App (hooks H) (remote H)"
    and "remote H \<noteq> Resolved \<or> (label \<noteq> ''Increment'' \<and> label \<noteq> ''Decrement'')"
  shows "step fmt H (Activate label) = Inr H"
proof (cases "remote H")
  case Pending
  then show ?thesis using assms(1) by (simp add: App_Pending activate_def find_control_fallback)
next
  case Resolved
  then show ?thesis using assms
    by (simp add: App_Resolved activate_def find_control_in_App find_control_Counter_other)
next
  case Rejected
  then show ?thesis using assms(1) by (simp add: App_Rejected)
qed

lemma js_add_1_bounded: "\<bar>c\<bar> \<le> 9007199254740992 \<Longrightarrow> \<bar>js_add c 1\<bar> \<le> 9007199254740992"
proof (cases "c = 9007199254740992")
  case True
  then show ?thesis by (simp add: js_add_def to_double_above)
next
  case False
  assume "\<bar>c\<bar> \<le> 9007199254740992"
  with False have b: "\<bar>c + 1\<bar> \<le> 9007199254740992" by simp
  then show ?thesis by (simp add: js_add_def to_double_safe)
qed

lemma js_sub_1_bounded: "\<bar>c\<bar> \<le> 9007199254740992 \<Longrightarrow> \<bar>js_sub c 1\<bar> \<le> 9007199254740992"
proof (cases "c = - 9007199254740992")
  case True
  then show ?thesis by (simp add: js_sub_def to_double_below)
next
  case False
  assume "\<bar>c\<bar> \<le> 9007199254740992"
  with False have b: "\<bar>c - 1\<bar> \<le> 9007199254740992" by simp
  then show ?thesis by (simp add: js_sub_def to_double_safe)
qed

lemma js_add_1_exact: "\<bar>c\<bar> \<le> 9007199254740992 \<Longrightarrow> c \<noteq> 9007199254740992 \<Longrightarrow> js_add c 1 = c + 1"
  by (simp add: js_add_def to_double_safe)

lemma js_sub_1_exact: "\<bar>c\<bar> \<le> 9007199254740992 \<Longrightarrow> c \<noteq> - 9007199254740992 \<Longrightarrow> js_sub c 1 = c - 1"
  by (simp add: js_sub_def to_double_safe)

lemma js_add_1_limit: "js_add 9007199254740992 1 = 9007199254740992"
  by (simp add: js_add_def to_double_above)

lemma js_sub_1_limit: "js_sub (- 9007199254740992) 1 = - 9007199254740992"
  by (simp add: js_sub_def to_double_below)

text \<open>What a step does to a consistent host, by cases.\<close>

lemma step_cases:
  assumes "screen H = App (hooks H) (remote H)" and "step fmt H e = Inr H'"
  shows "H' = H
       \<or> (e = Resolve \<and> remote H = Pending \<and> H' = render (H\<lparr>remote := Resolved\<rparr>))
       \<or> (e = Reject \<and> remote H = Pending \<and> H' = render (H\<lparr>remote := Rejected\<rparr>))
       \<or> (e = increment \<and> remote H = Resolved \<and>
            H' = render (H\<lparr>hooks := (hooks H)\<lparr>count := js_add (count (hooks H)) 1\<rparr>\<rparr>))
       \<or> (e = decrement \<and> remote H = Resolved \<and>
            H' = render (H\<lparr>hooks := (hooks H)\<lparr>count := js_sub (count (hooks H)) 1\<rparr>\<rparr>))"
proof (cases e)
  case Resolve
  then show ?thesis using assms(2) by (auto split: if_splits)
next
  case Reject
  then show ?thesis using assms(2) by (auto split: if_splits)
next
  case (Activate label)
  show ?thesis
  proof (cases "remote H = Resolved \<and> (label = ''Increment'' \<or> label = ''Decrement'')")
    case False
    then have "step fmt H (Activate label) = Inr H"
      using step_Activate_other [OF assms(1), of label fmt] by blast
    then show ?thesis using assms(2) Activate by simp
  next
    case True
    then have r: "remote H = Resolved" and s: "screen H = App (hooks H) Resolved"
      using assms(1) by simp_all
    from True consider "label = ''Increment''" | "label = ''Decrement''" by blast
    then show ?thesis
    proof cases
      case 1
      then have "e = increment" using Activate by (simp add: increment_def)
      then show ?thesis using step_increment_Resolved [OF r s, of fmt] assms(2) r by simp
    next
      case 2
      then have "e = decrement" using Activate by (simp add: decrement_def)
      then show ?thesis using step_decrement_Resolved [OF r s, of fmt] assms(2) r by simp
    qed
  qed
qed

lemma render_simps:
  "hooks (render H) = hooks H" "remote (render H) = remote H"
  "screen (render H) = App (hooks H) (remote H)"
  by (simp_all add: render_def)

lemma reachable_invariant:
  "reachable fmt H \<Longrightarrow>
     screen H = App (hooks H) (remote H) \<and> \<bar>count (hooks H)\<bar> \<le> 9007199254740992"
proof (induction rule: reachable.induct)
  case reachable_mount
  show ?case by (simp add: mount_def initial_state_def)
next
  case (reachable_step H e H')
  then have c: "screen H = App (hooks H) (remote H)"
    and b: "\<bar>count (hooks H)\<bar> \<le> 9007199254740992" by simp_all
  from step_cases [OF c reachable_step.hyps(2)] show ?case
    using c b js_add_1_bounded [OF b] js_sub_1_bounded [OF b]
    by (auto simp add: render_simps)
qed

subsection \<open>Runs of the host\<close>

lemma increment_neq_decrement: "increment \<noteq> decrement"
  by (simp add: increment_def decrement_def)

lemma net_Nil: "net [] = 0"
  by (simp add: net_def)

lemma net_increment: "net (increment # acts) = net acts + 1"
  using increment_neq_decrement by (simp add: net_def)

lemma net_decrement: "net (decrement # acts) = net acts - 1"
  using increment_neq_decrement by (auto simp add: net_def)

lemma run_append:
  "run fmt H (xs @ ys) = (case run fmt H xs of Inl e \<Rightarrow> Inl e | Inr H' \<Rightarrow> run fmt H' ys)"
  by (induction xs arbitrary: H) (simp_all split: sum.splits)

lemma reachable_run: "reachable fmt H \<Longrightarrow> run fmt H evs = Inr H' \<Longrightarrow> reachable fmt H'"
proof (induction evs arbitrary: H)
  case Nil
  then show ?case by simp
next
  case (Cons e evs)
  from Cons.prems(2) obtain H1 where s: "step fmt H e = Inr H1" and r: "run fmt H1 evs = Inr H'"
    by (auto split: sum.splits)
  from Cons.prems(1) s have "reachable fmt H1" by (rule reachable_step)
  then show ?case using r by (rule Cons.IH)
qed

lemma run_acts:
  assumes "remote H = Resolved" and "screen H = App (hooks H) Resolved"
    and "set acts \<subseteq> {increment, decrement}"
    and "\<forall>k\<le>length acts. \<bar>count (hooks H) + net (take k acts)\<bar> \<le> 9007199254740992"
  shows "\<exists>H'. run fmt H acts = Inr H' \<and> remote H' = Resolved \<and>
           screen H' = App (hooks H') Resolved \<and>
           count (hooks H') = count (hooks H) + net acts"
  using assms
proof (induction acts arbitrary: H)
  case Nil
  then show ?case by (simp add: net_Nil)
next
  case (Cons a acts)
  let ?c = "count (hooks H)"
  from Cons.prems(4) have "\<bar>?c + net (take 1 (a # acts))\<bar> \<le> 9007199254740992"
    by (metis One_nat_def Suc_leI length_Cons zero_less_Suc)
  then have b1: "\<bar>?c + net [a]\<bar> \<le> 9007199254740992" by simp
  have tail: "\<forall>k\<le>length acts. \<bar>?c + net (a # take k acts)\<bar> \<le> 9007199254740992"
  proof (intro allI impI)
    fix k assume "k \<le> length acts"
    then have "Suc k \<le> length (a # acts)" by simp
    with Cons.prems(4) have "\<bar>?c + net (take (Suc k) (a # acts))\<bar> \<le> 9007199254740992" by blast
    then show "\<bar>?c + net (a # take k acts)\<bar> \<le> 9007199254740992" by simp
  qed
  from Cons.prems(3) have sub: "set acts \<subseteq> {increment, decrement}" by simp
  from Cons.prems(3) consider "a = increment" | "a = decrement" by auto
  then show ?case
  proof cases
    case 1
    let ?H1 = "render (H\<lparr>hooks := (hooks H)\<lparr>count := js_add ?c 1\<rparr>\<rparr>)"
    have s: "step fmt H a = Inr ?H1"
      using 1 step_increment_Resolved [OF Cons.prems(1) Cons.prems(2)] by simp
    have e: "js_add ?c 1 = ?c + 1"
      using b1 1 by (simp add: net_increment net_Nil js_add_def to_double_safe)
    have c1: "count (hooks ?H1) = ?c + 1" using e by (simp add: render_simps)
    have r1: "remote ?H1 = Resolved" using Cons.prems(1) by (simp add: render_simps)
    have s1: "screen ?H1 = App (hooks ?H1) Resolved"
      using Cons.prems(1) by (simp add: render_simps)
    have "count (hooks ?H1) + net (take k acts) = ?c + net (a # take k acts)" for k
      using c1 1 by (simp add: net_increment)
    then have t1: "\<forall>k\<le>length acts. \<bar>count (hooks ?H1) + net (take k acts)\<bar> \<le> 9007199254740992"
      using tail by simp
    from Cons.IH [OF r1 s1 sub t1] obtain H' where
      "run fmt ?H1 acts = Inr H'" "remote H' = Resolved" "screen H' = App (hooks H') Resolved"
      "count (hooks H') = count (hooks ?H1) + net acts" by blast
    then show ?thesis using s c1 1 by (simp add: net_increment)
  next
    case 2
    let ?H1 = "render (H\<lparr>hooks := (hooks H)\<lparr>count := js_sub ?c 1\<rparr>\<rparr>)"
    have s: "step fmt H a = Inr ?H1"
      using 2 step_decrement_Resolved [OF Cons.prems(1) Cons.prems(2)] by simp
    have e: "js_sub ?c 1 = ?c - 1"
      using b1 2 by (simp add: net_decrement net_Nil js_sub_def to_double_safe)
    have c1: "count (hooks ?H1) = ?c - 1" using e by (simp add: render_simps)
    have r1: "remote ?H1 = Resolved" using Cons.prems(1) by (simp add: render_simps)
    have s1: "screen ?H1 = App (hooks ?H1) Resolved"
      using Cons.prems(1) by (simp add: render_simps)
    have "count (hooks ?H1) + net (take k acts) = ?c + net (a # take k acts)" for k
      using c1 2 by (simp add: net_decrement)
    then have t1: "\<forall>k\<le>length acts. \<bar>count (hooks ?H1) + net (take k acts)\<bar> \<le> 9007199254740992"
      using tail by simp
    from Cons.IH [OF r1 s1 sub t1] obtain H' where
      "run fmt ?H1 acts = Inr H'" "remote H' = Resolved" "screen H' = App (hooks H') Resolved"
      "count (hooks H') = count (hooks ?H1) + net acts" by blast
    then show ?thesis using s c1 2 by (simp add: net_decrement)
  qed
qed

lemma displayed_count_Resolved:
  assumes "screen H = App (hooks H) Resolved" and "\<bar>count (hooks H)\<bar> \<le> 9007199254740992"
  shows "displayed_count fmt H = Some (''Count: '' @ int_to_string (count (hooks H)))"
proof -
  have "displayed_count fmt H =
          map_option (text_content fmt)
            (find (is_tag ''p'')
              (nodes (Fragment [Element ''h1'' [] [Leaf (JStr ''Hello from React component'')],
                                Counter (Counter_props (hooks H))])))"
    using assms(1) by (simp only: displayed_count_def App_Resolved rendering.case)
  also have "\<dots> = Some (text_content fmt
                 (Element ''p'' [] [Leaf (JStr ''Count: ''),
                                    Leaf (JNum (Finite (of_int (count (hooks H)))))]
                  :: host_state node))"
    by (simp add: find_p_App get_prop_count del: nodes.simps text_content.simps)
  also have "\<dots> = Some (''Count: '' @ int_to_string (count (hooks H)))"
    using assms(2) by (simp add: text_paragraph number_to_string_safe del: text_content.simps)
  finally show ?thesis .
qed

lemma step_mount_Resolve:
  "step fmt mount Resolve = Inr (render (mount\<lparr>remote := Resolved\<rparr>))"
  by (simp add: mount_def)

section \<open>The Counter component\<close>

text \<open>
  Claim C2. Given a number as \<open>count\<close> and two functions as \<open>onIncrement\<close> and
  \<open>onDecrement\<close>, \<open>Counter\<close> returns a fragment of three elements: a paragraph whose
  text is \<open>Count: \<close> followed by the string form of the count, a button labelled
  \<open>Increment\<close> whose activation calls \<open>onIncrement\<close>, and a button labelled
  \<open>Decrement\<close> whose activation calls \<open>onDecrement\<close>. (The paragraph has two
  children, the literal and the count; its text is their concatenation.)
\<close>

theorem Counter_view:
  assumes "get_prop props ''count'' = JNum x"
    and "get_prop props ''onIncrement'' = JFun inc"
    and "get_prop props ''onDecrement'' = JFun dec"
  shows "\<exists>p bi bd.
           Counter props = Fragment [p, bi, bd] \<and>
           text_content fmt p = ''Count: '' @ number_to_string fmt x \<and>
           is_tag ''button'' bi \<and> text_content fmt bi = ''Increment'' \<and>
           find_control fmt ''Increment'' (Counter props) = Some bi \<and>
           activate fmt ''Increment'' (Counter props) s = Some (inc s) \<and>
           is_tag ''button'' bd \<and> text_content fmt bd = ''Decrement'' \<and>
           find_control fmt ''Decrement'' (Counter props) = Some bd \<and>
           activate fmt ''Decrement'' (Counter props) s = Some (dec s)"
proof -
  let ?p = "Element ''p'' [] [Leaf (JStr ''Count: ''), Leaf (get_prop props ''count'')]"
  let ?bi = "Element ''button'' [(''onClick'', get_prop props ''onIncrement'')]
               [Leaf (JStr ''Increment'')]"
  let ?bd = "Element ''button'' [(''onClick'', get_prop props ''onDecrement'')]
               [Leaf (JStr ''Decrement'')]"
  have "Counter props = Fragment [?p, ?bi, ?bd]" by (simp add: Counter_def)
  moreover have "text_content fmt ?p = ''Count: '' @ number_to_string fmt x"
    using assms(1) by (simp add: child_text_def)
  moreover have "is_tag ''button'' ?bi" "is_tag ''button'' ?bd"
    by (simp_all add: is_tag_def)
  moreover have "text_content fmt ?bi = ''Increment''" "text_content fmt ?bd = ''Decrement''"
    by (simp_all add: child_text_def)
  moreover have "find_control fmt ''Increment'' (Counter props) = Some ?bi"
    by (rule find_control_Counter_Increment)
  moreover have "find_control fmt ''Decrement'' (Counter props) = Some ?bd"
    by (rule find_control_Counter_Decrement)
  moreover have "activate fmt ''Increment'' (Counter props) s = Some (inc s)"
    using assms(2) by (simp add: activate_Counter_Increment dispatch_def)
  moreover have "activate fmt ''Decrement'' (Counter props) s = Some (dec s)"
    using assms(3) by (simp add: activate_Counter_Decrement dispatch_def)
  ultimately show ?thesis by blast
qed

theorem Counter_view_witness:
  "\<exists>p bi bd.
     Counter [''count'' \<mapsto> JNum (Finite 7), ''onIncrement'' \<mapsto> JFun (setCount 8),
              ''onDecrement'' \<mapsto> JFun (setCount 6)] = Fragment [p, bi, bd] \<and>
     text_content (\<lambda>q. []) p = ''Count: 7'' \<and>
     text_content (\<lambda>q. []) bi = ''Increment'' \<and>
     text_content (\<lambda>q. []) bd = ''Decrement'' \<and>
     activate (\<lambda>q. []) ''Increment''
       (Counter [''count'' \<mapsto> JNum (Finite 7), ''onIncrement'' \<mapsto> JFun (setCount 8),
                 ''onDecrement'' \<mapsto> JFun (setCount 6)]) \<lparr>count = 7\<rparr> = Some (Inr \<lparr>count = 8\<rparr>) \<and>
     activate (\<lambda>q. []) ''Decrement''
       (Counter [''count'' \<mapsto> JNum (Finite 7), ''onIncrement'' \<mapsto> JFun (setCount 8),
                 ''onDecrement'' \<mapsto> JFun (setCount 6)]) \<lparr>count = 7\<rparr> = Some (Inr \<lparr>count = 6\<rparr>)"
proof -
  let ?props = "[''count'' \<mapsto> JNum (Finite 7), ''onIncrement'' \<mapsto> JFun (setCount 8),
                 ''onDecrement'' \<mapsto> JFun (setCount 6)]"
  have a: "get_prop ?props ''count'' = JNum (Finite 7)"
    and b: "get_prop ?props ''onIncrement'' = JFun (setCount 8)"
    and c: "get_prop ?props ''onDecrement'' = JFun (setCount 6)"
    by (simp_all add: get_prop_def)
  have n: "number_to_string (\<lambda>q. []) (Finite 7) = ''7''"
    by (simp add: number_to_string_def is_safe_integer_def int_to_string_def dec_digits.simps)
  from Counter_view [OF a b c, of "\<lambda>q. []" "\<lparr>count = 7\<rparr>"] n show ?thesis
    by (auto simp add: setCount_def)
qed

text \<open>
  Claim C9. \<open>Counter\<close> does not validate its count: whatever number it is given
  (negative, not an integer, \<open>NaN\<close>, an infinity), the paragraph holds the literal
  \<open>Count: \<close> and that very number, and its text is \<open>Count: \<close> followed by the
  number's string form.
\<close>

theorem Counter_no_validation:
  assumes "get_prop props ''count'' = JNum x"
  shows "find (is_tag ''p'') (nodes (Counter props)) =
           Some (Element ''p'' [] [Leaf (JStr ''Count: ''), Leaf (JNum x)]) \<and>
         map_option (text_content fmt) (find (is_tag ''p'') (nodes (Counter props))) =
           Some (''Count: '' @ number_to_string fmt x)"
  using assms by (simp add: find_p_Counter text_paragraph del: text_content.simps nodes.simps)

theorem Counter_no_validation_witness:
  "map_option (text_content (\<lambda>q. ''2.5''))
     (find (is_tag ''p'')
       (nodes (Counter [''count'' \<mapsto> JNum NaN, ''onIncrement'' \<mapsto> JFun (setCount 0)]))) =
       Some ''Count: NaN'' \<and>
   map_option (text_content (\<lambda>q. ''2.5''))
     (find (is_tag ''p'')
       (nodes (Counter [''count'' \<mapsto> JNum (Finite (- 3)), ''onIncrement'' \<mapsto> JFun (setCount 0)]))) =
       Some ''Count: -3'' \<and>
   map_option (text_content (\<lambda>q. ''2.5''))
     (find (is_tag ''p'')
       (nodes (Counter [''count'' \<mapsto> JNum (Finite (5 / 2)), ''onIncrement'' \<mapsto> JFun (setCount 0)]))) =
       Some ''Count: 2.5'' \<and>
   map_option (text_content (\<lambda>q. ''2.5''))
     (find (is_tag ''p'')
       (nodes (Counter [''count'' \<mapsto> JNum NegInfinity, ''onIncrement'' \<mapsto> JFun (setCount 0)]))) =
       Some ''Count: -Infinity''"
proof -
  have g: "get_prop [''count'' \<mapsto> JNum x, ''onIncrement'' \<mapsto> JFun (setCount 0)] ''count'' = JNum x"
    for x :: jsnum
    by (simp add: get_prop_def)
  have a: "number_to_string (\<lambda>q. ''2.5'') NaN = ''NaN''"
    and b: "number_to_string (\<lambda>q. ''2.5'') NegInfinity = ''-Infinity''"
    by (simp_all add: number_to_string_def)
  have c: "number_to_string (\<lambda>q. ''2.5'') (Finite (- 3)) = ''-3''"
    by (simp add: number_to_string_def is_safe_integer_def int_to_string_def dec_digits.simps)
  have "\<lfloor>5 / 2 :: rat\<rfloor> = 2" by (simp add: floor_eq_iff)
  then have d: "number_to_string (\<lambda>q. ''2.5'') (Finite (5 / 2)) = ''2.5''"
    by (simp add: number_to_string_def is_safe_integer_def)
  have r: "map_option (text_content (\<lambda>q. ''2.5''))
     (find (is_tag ''p'')
       (nodes (Counter [''count'' \<mapsto> JNum x, ''onIncrement'' \<mapsto> JFun (setCount 0)]))) =
       Some (''Count: '' @ number_to_string (\<lambda>q. ''2.5'') x)" for x
    using Counter_no_validation [OF g [of x], of "\<lambda>q. ''2.5''"] by (rule conjunct2)
  show ?thesis
    using r [of NaN] r [of "Finite (- 3)"] r [of "Finite (5 / 2)"] r [of NegInfinity]
    by (simp only: a b c d append.simps simp_thms)
qed

text \<open>
  Claim C10. The output of \<open>Counter\<close> depends on the three properties \<open>count\<close>,
  \<open>onIncrement\<close> and \<open>onDecrement\<close> only: two props objects that agree on these
  three give the same view, whatever else they hold.
\<close>

theorem Counter_depends_on_three_props:
  assumes "get_prop p1 ''count'' = get_prop p2 ''count''"
    and "get_prop p1 ''onIncrement'' = get_prop p2 ''onIncrement''"
    and "get_prop p1 ''onDecrement'' = get_prop p2 ''onDecrement''"
  shows "Counter p1 = Counter p2"
  using assms by (simp add: Counter_def)

theorem Counter_depends_on_three_props_witness:
  "Counter [''count'' \<mapsto> JNum (Finite 1), ''onIncrement'' \<mapsto> JFun (setCount 2),
            ''onDecrement'' \<mapsto> JFun (setCount 0), ''title'' \<mapsto> JStr ''a'', ''key'' \<mapsto> JNull] =
   Counter [''onDecrement'' \<mapsto> JFun (setCount 0), ''count'' \<mapsto> JNum (Finite 1),
            ''onIncrement'' \<mapsto> JFun (setCount 2), ''title'' \<mapsto> JStr ''b'']"
  by (rule Counter_depends_on_three_props) (simp_all add: get_prop_def)

text \<open>
  The body evaluates to the view and leaves the state alone. A call written into a
  body would show in the evaluation: the state changes, or the exception of the
  callback ends the render.
\<close>

lemma eval_Counter_body: "eval_jsx props Counter_body s = Inr (Counter props, s)"
  by (simp add: Counter_body_def Counter_def)

lemma call_during_render_is_seen:
  "eval_jsx [''onIncrement'' \<mapsto> JFun (setCount 5)]
     (JsxElement ''button'' [(''onClick'', CallExpr (PropRead ''onIncrement''))]
        [JsxText ''Increment'']) \<lparr>count = 4\<rparr> =
   Inr (Element ''button'' [(''onClick'', JUndefined)] [Leaf (JStr ''Increment'')], \<lparr>count = 5\<rparr>)"
  by (simp add: get_prop_def setCount_def)

lemma throw_during_render_is_seen:
  "eval_jsx [''onIncrement'' \<mapsto> JFun (\<lambda>s. Inl (Uncaught ''boom''))]
     (JsxElement ''button'' [(''onClick'', CallExpr (PropRead ''onIncrement''))]
        [JsxText ''Increment'']) \<lparr>count = 4\<rparr> = Inl (Uncaught ''boom'')"
  by (simp add: get_prop_def)

lemma eval_Counter_body_many:
  "eval_children props (replicate n Counter_body) s = Inr (replicate n (Counter props), s)"
  by (induction n) (simp_all add: eval_Counter_body del: eval_jsx.simps)

text \<open>
  Claim C8. Evaluating the body of \<open>Counter\<close> in any state, with any props, returns
  the view and leaves the state as it was; it never throws and never calls a
  callback, even one that would throw or change the state. The view does not depend
  on the state, so the component keeps nothing between renders: rendering it any
  number of times gives the same view each time and the same state. The callbacks
  occur in the view only as the \<open>onClick\<close> of the two buttons; activating a control
  does to the state what the dispatch of its callback does and nothing more, and the
  view has no other control.
\<close>

theorem Counter_pure:
  "eval_jsx props Counter_body s = Inr (Counter props, s) \<and>
   eval_children props (replicate n Counter_body) s = Inr (replicate n (Counter props), s) \<and>
   attribute_values (Counter props) =
     [get_prop props ''onIncrement'', get_prop props ''onDecrement''] \<and>
   activate fmt label (Counter props) s =
     (if label = ''Increment'' then Some (dispatch (get_prop props ''onIncrement'') s)
      else if label = ''Decrement'' then Some (dispatch (get_prop props ''onDecrement'') s)
      else None)"
proof -
  have "attribute_values (Counter props) =
          [get_prop props ''onIncrement'', get_prop props ''onDecrement'']"
    by (simp add: Counter_def)
  moreover have "activate fmt label (Counter props) s =
     (if label = ''Increment'' then Some (dispatch (get_prop props ''onIncrement'') s)
      else if label = ''Decrement'' then Some (dispatch (get_prop props ''onDecrement'') s)
      else None)"
    by (simp add: activate_Counter_Increment activate_Counter_Decrement)
      (simp add: activate_def find_control_Counter_other)
  ultimately show ?thesis
    by (simp only: eval_Counter_body eval_Counter_body_many simp_thms)
qed

theorem Counter_pure_witness:
  "(\<exists>v. eval_jsx [''count'' \<mapsto> JNum (Finite 1),
                   ''onIncrement'' \<mapsto> JFun (\<lambda>s. Inl (Uncaught ''boom'')),
                   ''onDecrement'' \<mapsto> JFun (setCount 99)] Counter_body \<lparr>count = 1\<rparr> =
          Inr (v, \<lparr>count = 1\<rparr>) \<and>
        eval_children [''count'' \<mapsto> JNum (Finite 1),
                   ''onIncrement'' \<mapsto> JFun (\<lambda>s. Inl (Uncaught ''boom'')),
                   ''onDecrement'' \<mapsto> JFun (setCount 99)] [Counter_body, Counter_body] \<lparr>count = 1\<rparr> =
          Inr ([v, v], \<lparr>count = 1\<rparr>) \<and>
        attribute_values v = [JFun (\<lambda>s. Inl (Uncaught ''boom'')), JFun (setCount 99)] \<and>
        activate (\<lambda>q. []) ''Increment'' v \<lparr>count = 1\<rparr> = Some (Inl (Uncaught ''boom'')) \<and>
        activate (\<lambda>q. []) ''Decrement'' v \<lparr>count = 1\<rparr> = Some (Inr \<lparr>count = 99\<rparr>) \<and>
        activate (\<lambda>q. []) ''Count: 1'' v \<lparr>count = 1\<rparr> = None)"
proof -
  let ?props = "[''count'' \<mapsto> JNum (Finite 1),
                   ''onIncrement'' \<mapsto> JFun (\<lambda>s. Inl (Uncaught ''boom'')),
                   ''onDecrement'' \<mapsto> JFun (setCount 99)]"
  have g: "get_prop ?props ''onIncrement'' = JFun (\<lambda>s. Inl (Uncaught ''boom''))"
    "get_prop ?props ''onDecrement'' = JFun (setCount 99)"
    by (simp_all add: get_prop_def)
  have r: "replicate 2 Counter_body = [Counter_body, Counter_body]"
    "replicate 2 (Counter ?props) = [Counter ?props, Counter ?props]"
    by (simp_all add: numeral_2_eq_2)
  have d: "dispatch (JFun (\<lambda>s. Inl (Uncaught ''boom''))) \<lparr>count = 1\<rparr> = Inl (Uncaught ''boom'')"
    "dispatch (JFun (setCount 99)) \<lparr>count = 1\<rparr> = Inr \<lparr>count = 99\<rparr>"
    by (simp_all add: dispatch_def setCount_def)
  have "eval_jsx ?props Counter_body \<lparr>count = 1\<rparr> = Inr (Counter ?props, \<lparr>count = 1\<rparr>) \<and>
        eval_children ?props [Counter_body, Counter_body] \<lparr>count = 1\<rparr> =
          Inr ([Counter ?props, Counter ?props], \<lparr>count = 1\<rparr>) \<and>
        attribute_values (Counter ?props) =
          [JFun (\<lambda>s. Inl (Uncaught ''boom'')), JFun (setCount 99)] \<and>
        activate (\<lambda>q. []) ''Increment'' (Counter ?props) \<lparr>count = 1\<rparr> =
          Some (Inl (Uncaught ''boom'')) \<and>
        activate (\<lambda>q. []) ''Decrement'' (Counter ?props) \<lparr>count = 1\<rparr> = Some (Inr \<lparr>count = 99\<rparr>) \<and>
        activate (\<lambda>q. []) ''Count: 1'' (Counter ?props) \<lparr>count = 1\<rparr> = None"
    using Counter_pure [of ?props "\<lparr>count = 1\<rparr>" 2 "\<lambda>q. []" "''Increment''"]
      Counter_pure [of ?props "\<lparr>count = 1\<rparr>" 2 "\<lambda>q. []" "''Decrement''"]
      Counter_pure [of ?props "\<lparr>count = 1\<rparr>" 2 "\<lambda>q. []" "''Count: 1''"]
    by (simp add: g r d del: eval_jsx.simps)
  then show ?thesis by blast
qed

text \<open>
  Claim C7 says that activating a control never throws when both callbacks are
  functions. A function may throw, and then the activation throws with it: here
  \<open>onIncrement\<close> and \<open>onDecrement\<close> are both functions and activating
  \<open>Increment\<close> ends in the exception of the callback.
\<close>

theorem activation_may_throw:
  "get_prop [''count'' \<mapsto> JNum (Finite 0),
             ''onIncrement'' \<mapsto> JFun (\<lambda>s. Inl (Uncaught ''boom'')),
             ''onDecrement'' \<mapsto> JFun Inr] ''onIncrement'' = JFun (\<lambda>s. Inl (Uncaught ''boom'')) \<and>
   get_prop [''count'' \<mapsto> JNum (Finite 0),
             ''onIncrement'' \<mapsto> JFun (\<lambda>s. Inl (Uncaught ''boom'')),
             ''onDecrement'' \<mapsto> JFun Inr] ''onDecrement'' = JFun Inr \<and>
   activate (\<lambda>q. []) ''Increment''
     (Counter [''count'' \<mapsto> JNum (Finite 0),
               ''onIncrement'' \<mapsto> JFun (\<lambda>s. Inl (Uncaught ''boom'')),
               ''onDecrement'' \<mapsto> JFun Inr]) initial_state = Some (Inl (Uncaught ''boom''))"
  by (simp add: activate_Counter_Increment dispatch_def get_prop_def)

text \<open>
  Claim C7, amended. When both callbacks are functions, activating a control is
  exactly the call of its callback: it completes without throwing whenever the callback
  returns, and no error comes from the component or from the dispatch. The callbacks
  the host passes always return.
\<close>

theorem activation_calls_the_callback:
  assumes "get_prop props ''onIncrement'' = JFun inc"
    and "get_prop props ''onDecrement'' = JFun dec"
  shows "activate fmt ''Increment'' (Counter props) s = Some (inc s) \<and>
         activate fmt ''Decrement'' (Counter props) s = Some (dec s) \<and>
         (\<forall>s'. inc s = Inr s' \<longrightarrow> activate fmt ''Increment'' (Counter props) s = Some (Inr s')) \<and>
         (\<forall>s'. dec s = Inr s' \<longrightarrow> activate fmt ''Decrement'' (Counter props) s = Some (Inr s')) \<and>
         (\<exists>t. activate fmt ''Increment'' (Counter (Counter_props st)) u = Some (Inr t)) \<and>
         (\<exists>t. activate fmt ''Decrement'' (Counter (Counter_props st)) u = Some (Inr t))"
  using assms
  by (simp add: activate_Counter_Increment activate_Counter_Decrement dispatch_def
      get_prop_onIncrement get_prop_onDecrement setCount_def)

theorem activation_calls_the_callback_witness:
  "activate (\<lambda>q. []) ''Increment''
     (Counter [''onIncrement'' \<mapsto> JFun (setCount 5), ''onDecrement'' \<mapsto> JFun (setCount 3)])
     \<lparr>count = 4\<rparr> = Some (Inr \<lparr>count = 5\<rparr>) \<and>
   activate (\<lambda>q. []) ''Decrement''
     (Counter [''onIncrement'' \<mapsto> JFun (setCount 5), ''onDecrement'' \<mapsto> JFun (setCount 3)])
     \<lparr>count = 4\<rparr> = Some (Inr \<lparr>count = 3\<rparr>)"
proof -
  let ?props = "[''onIncrement'' \<mapsto> JFun (setCount 5), ''onDecrement'' \<mapsto> JFun (setCount 3)]"
  have a: "get_prop ?props ''onIncrement'' = JFun (setCount 5)"
    and b: "get_prop ?props ''onDecrement'' = JFun (setCount 3)"
    by (simp_all add: get_prop_def)
  from activation_calls_the_callback [OF a b, of "\<lambda>q. []" "\<lparr>count = 4\<rparr>"]
  show ?thesis by (simp add: setCount_def)
qed

section \<open>The host application\<close>

lemma run_Pending:
  assumes "remote H = Pending" and "screen H = App (hooks H) (remote H)"
    and "Resolve \<notin> set evs" and "Reject \<notin> set evs"
  shows "run fmt H evs = Inr H"
  using assms(3,4)
proof (induction evs)
  case Nil
  show ?case by simp
next
  case (Cons e evs)
  then obtain label where "e = Activate label" by (cases e) auto
  then have "step fmt H e = Inr H"
    using step_Activate_other [OF assms(2), of label fmt] assms(1) by simp
  then show ?case using Cons by simp
qed

lemma mount_simps:
  "hooks mount = initial_state" "remote mount = Pending"
  "screen mount = App initial_state Pending"
  by (simp_all add: mount_def)

lemma resolved_mount_simps:
  "remote resolved_mount = Resolved" "hooks resolved_mount = initial_state"
  "screen resolved_mount = App (hooks resolved_mount) Resolved"
  "count (hooks resolved_mount) = 0"
  by (simp_all add: resolved_mount_def render_simps mount_simps initial_state_def)

lemma step_mount_Resolve_eq: "step fmt mount Resolve = Inr resolved_mount"
  by (simp add: resolved_mount_def mount_simps)

lemma reachable_resolved_mount: "reachable fmt resolved_mount"
  using reachable_mount step_mount_Resolve_eq by (rule reachable_step)

lemma int_to_string_0: "int_to_string 0 = ''0''"
  by (simp add: int_to_string_def dec_digits_0)

text \<open>
  Claim C4. Mounting the host creates the count with the value \<open>0\<close>, and the first
  render after the remote component has resolved shows \<open>Count: 0\<close>, whatever the
  user tried to activate while the fallback was shown.
\<close>

theorem initial_count_is_zero:
  assumes "Resolve \<notin> set evs" and "Reject \<notin> set evs"
  shows "count (hooks mount) = 0 \<and>
         (\<exists>H. run fmt mount (evs @ [Resolve]) = Inr H \<and> count (hooks H) = 0 \<and>
              displayed_count fmt H = Some ''Count: 0'')"
proof -
  have "run fmt mount evs = Inr mount"
    using assms by (intro run_Pending) (simp_all add: mount_simps)
  then have "run fmt mount (evs @ [Resolve]) = Inr resolved_mount"
    by (simp add: run_append step_mount_Resolve_eq del: step.simps)
  moreover have "displayed_count fmt resolved_mount = Some ''Count: 0''"
    using displayed_count_Resolved [of resolved_mount fmt]
    by (simp add: resolved_mount_simps initial_state_def int_to_string_0)
  ultimately show ?thesis by (simp add: mount_simps initial_state_def resolved_mount_simps)
qed

theorem initial_count_is_zero_witness:
  "count (hooks mount) = 0 \<and>
   (\<exists>H. run (\<lambda>q. []) mount ([Activate ''Increment'', Activate ''Loading Counter...''] @ [Resolve])
           = Inr H \<and> count (hooks H) = 0 \<and> displayed_count (\<lambda>q. []) H = Some ''Count: 0'') \<and>
   (\<exists>H. run (\<lambda>q. []) mount ([] @ [Resolve]) = Inr H \<and> count (hooks H) = 0 \<and>
        displayed_count (\<lambda>q. []) H = Some ''Count: 0'')"
  using initial_count_is_zero [of "[Activate ''Increment'', Activate ''Loading Counter...'']" "\<lambda>q. []"]
    initial_count_is_zero [of "[]" "\<lambda>q. []"]
  by simp









section \<open>Counting\<close>

lemma int_to_string_limit: "int_to_string 9007199254740992 = ''9007199254740992''"
  by (simp add: int_to_string_def dec_digits.simps)

lemma int_to_string_small:
  "int_to_string 1 = ''1''" "int_to_string 2 = ''2''" "int_to_string (- 1) = ''-1''"
  by (simp_all add: int_to_string_def dec_digits.simps)


lemma count_list_replicate_same: "count_list (replicate n x) x = n"
  by (induction n) simp_all

lemma count_list_replicate_other: "x \<noteq> y \<Longrightarrow> count_list (replicate n x) y = 0"
  by (induction n) simp_all

lemma net_replicate_increment: "net (replicate n increment) = int n"
  using increment_neq_decrement
  by (simp add: net_def count_list_replicate_same count_list_replicate_other)

lemma net_replicate_decrement: "net (replicate n decrement) = - int n"
  using increment_neq_decrement
  by (simp add: net_def count_list_replicate_same count_list_replicate_other)

lemma net_bound: "\<bar>net acts\<bar> \<le> int (length acts)"
proof -
  have "count_list acts increment \<le> length acts" "count_list acts decrement \<le> length acts"
    by (rule count_le_length)+
  then show ?thesis by (simp add: net_def)
qed

lemma net_take_bound: "\<bar>net (take k acts)\<bar> \<le> int (length acts)"
proof -
  have "\<bar>net (take k acts)\<bar> \<le> int (length (take k acts))" by (rule net_bound)
  also have "\<dots> \<le> int (length acts)" by simp
  finally show ?thesis .
qed

lemma run_from_mount:
  "run fmt mount (Resolve # acts) = run fmt resolved_mount acts"
  by (simp add: step_mount_Resolve_eq del: step.simps)

lemma run_resolved_mount:
  assumes "set acts \<subseteq> {increment, decrement}"
    and "\<forall>k\<le>length acts. \<bar>net (take k acts)\<bar> \<le> 9007199254740992"
  shows "\<exists>H. run fmt resolved_mount acts = Inr H \<and> reachable fmt H \<and> remote H = Resolved \<and>
           screen H = App (hooks H) Resolved \<and> count (hooks H) = net acts"
proof -
  have "\<forall>k\<le>length acts. \<bar>count (hooks resolved_mount) + net (take k acts)\<bar> \<le> 9007199254740992"
    using assms(2) by (simp add: resolved_mount_simps(4))
  from run_acts [OF resolved_mount_simps(1) resolved_mount_simps(3) assms(1) this, of fmt]
  obtain H where r: "run fmt resolved_mount acts = Inr H" and "remote H = Resolved"
    and "screen H = App (hooks H) Resolved" and "count (hooks H) = net acts"
    by (auto simp add: resolved_mount_simps(4))
  moreover from reachable_resolved_mount r have "reachable fmt H" by (rule reachable_run)
  ultimately show ?thesis by blast
qed

lemma reach_count:
  assumes "\<bar>n\<bar> \<le> 9007199254740992"
  shows "\<exists>H. reachable fmt H \<and> remote H = Resolved \<and> count (hooks H) = n \<and>
           run fmt mount
             (Resolve # replicate (nat \<bar>n\<bar>) (if 0 \<le> n then increment else decrement)) = Inr H"
proof -
  let ?a = "if 0 \<le> n then increment else decrement"
  let ?acts = "replicate (nat \<bar>n\<bar>) ?a"
  have s: "set ?acts \<subseteq> {increment, decrement}" by auto
  have "\<bar>net (take k ?acts)\<bar> \<le> 9007199254740992" for k
  proof -
    have "\<bar>net (take k ?acts)\<bar> \<le> int (length ?acts)" by (rule net_take_bound)
    also have "\<dots> = \<bar>n\<bar>" by simp
    finally show ?thesis using assms by simp
  qed
  then have p: "\<forall>k\<le>length ?acts. \<bar>net (take k ?acts)\<bar> \<le> 9007199254740992" by blast
  from run_resolved_mount [OF s p, of fmt] obtain H where
    "run fmt resolved_mount ?acts = Inr H" "reachable fmt H" "remote H = Resolved"
    "count (hooks H) = net ?acts" by blast
  moreover have "net ?acts = n"
    by (cases "0 \<le> n") (simp_all add: net_replicate_increment net_replicate_decrement)
  ultimately show ?thesis by (auto simp add: run_from_mount simp del: run.simps)
qed

text \<open>
  Claim C1, amended. Start from the mounted host and let the remote resolve. For
  every sequence of \<open>increment\<close> and \<open>decrement\<close> activations, in any order, whose
  running difference stays within \<open>2 ^ 53\<close> in magnitude (every sequence of at most
  \<open>2 ^ 53\<close> activations does), the count afterwards is the number of increments
  minus the number of decrements, and that is the number the screen shows.
\<close>

theorem count_is_increments_minus_decrements:
  assumes "set acts \<subseteq> {increment, decrement}"
    and "\<forall>k\<le>length acts. \<bar>net (take k acts)\<bar> \<le> 2 ^ 53"
  shows "\<exists>H. run fmt mount (Resolve # acts) = Inr H \<and>
           count (hooks H) = int (count_list acts increment) - int (count_list acts decrement) \<and>
           displayed_count fmt H =
             Some (''Count: '' @
               int_to_string (int (count_list acts increment) - int (count_list acts decrement)))"
proof -
  from assms(2) have p: "\<forall>k\<le>length acts. \<bar>net (take k acts)\<bar> \<le> 9007199254740992" by simp
  from run_resolved_mount [OF assms(1) p, of fmt] obtain H where
    r: "run fmt resolved_mount acts = Inr H" and s: "screen H = App (hooks H) Resolved"
    and c: "count (hooks H) = net acts" by blast
  from p have "\<bar>net (take (length acts) acts)\<bar> \<le> 9007199254740992" by blast
  then have "\<bar>count (hooks H)\<bar> \<le> 9007199254740992" using c by simp
  with s have "displayed_count fmt H = Some (''Count: '' @ int_to_string (count (hooks H)))"
    by (rule displayed_count_Resolved)
  then show ?thesis using r c by (simp add: run_from_mount net_def del: run.simps)
qed

theorem count_is_increments_minus_decrements_witness:
  "\<exists>H. run (\<lambda>q. []) mount [Resolve, increment, increment, decrement] = Inr H \<and>
      count (hooks H) = 1 \<and> displayed_count (\<lambda>q. []) H = Some ''Count: 1''"
proof -
  let ?acts = "[increment, increment, decrement]"
  have s: "set ?acts \<subseteq> {increment, decrement}" by simp
  have "\<bar>net (take k ?acts)\<bar> \<le> 2 ^ 53" for k
  proof -
    have "\<bar>net (take k ?acts)\<bar> \<le> int (length ?acts)" by (rule net_take_bound)
    then show ?thesis by simp
  qed
  then have p: "\<forall>k\<le>length ?acts. \<bar>net (take k ?acts)\<bar> \<le> 2 ^ 53" by blast
  from count_is_increments_minus_decrements [OF s p, of "\<lambda>q. []"] increment_neq_decrement
  show ?thesis by (simp add: int_to_string_small del: run.simps)
qed

text \<open>
  Claim C1 as stated, for every sequence, fails: JavaScript's \<open>count + 1\<close> is a
  binary64 addition, and \<open>2 ^ 53 + 1\<close> rounds back to \<open>2 ^ 53\<close>. After
  \<open>2 ^ 53 + 1 = 9007199254740993\<close> increments and no decrement the screen shows
  \<open>Count: 9007199254740992\<close>.
\<close>

theorem count_stops_at_2_53:
  "set (replicate 9007199254740993 increment) \<subseteq> {increment, decrement} \<and>
   int (count_list (replicate 9007199254740993 increment) increment) -
     int (count_list (replicate 9007199254740993 increment) decrement) = 9007199254740993 \<and>
   (\<exists>H. run (\<lambda>q. []) mount (Resolve # replicate 9007199254740993 increment) = Inr H \<and>
        count (hooks H) = 9007199254740992 \<and>
        displayed_count (\<lambda>q. []) H = Some ''Count: 9007199254740992'')"
proof -
  let ?f = "\<lambda>q::rat. []::string"
  let ?N = "9007199254740992 :: nat"
  have n: "int (count_list (replicate 9007199254740993 increment) increment) -
     int (count_list (replicate 9007199254740993 increment) decrement) = 9007199254740993"
    using increment_neq_decrement
    by (simp add: count_list_replicate_same count_list_replicate_other)
  have s: "set (replicate ?N increment) \<subseteq> {increment, decrement}" by auto
  have "\<bar>net (take k (replicate ?N increment))\<bar> \<le> 9007199254740992" for k
  proof -
    have "\<bar>net (take k (replicate ?N increment))\<bar> \<le> int (length (replicate ?N increment))"
      by (rule net_take_bound)
    then show ?thesis by simp
  qed
  then have p: "\<forall>k\<le>length (replicate ?N increment).
      \<bar>net (take k (replicate ?N increment))\<bar> \<le> 9007199254740992" by blast
  from run_resolved_mount [OF s p, of ?f] obtain H where
    r: "run ?f resolved_mount (replicate ?N increment) = Inr H" and res: "remote H = Resolved"
    and scr: "screen H = App (hooks H) Resolved" and c: "count (hooks H) = 9007199254740992"
    by (auto simp add: net_replicate_increment)
  let ?H' = "render (H\<lparr>hooks := (hooks H)\<lparr>count := js_add (count (hooks H)) 1\<rparr>\<rparr>)"
  have st: "step ?f H increment = Inr ?H'" using res scr by (rule step_increment_Resolved)
  have c': "count (hooks ?H') = 9007199254740992"
    using c by (simp add: render_simps js_add_1_limit)
  have "screen ?H' = App (hooks ?H') Resolved" using res by (simp add: render_simps)
  then have d: "displayed_count ?f ?H' = Some ''Count: 9007199254740992''"
    using displayed_count_Resolved [of ?H' ?f] c' by (simp add: int_to_string_limit)
  have "replicate 9007199254740993 increment = replicate ?N increment @ [increment]"
  proof -
    have "(9007199254740993::nat) = Suc ?N" by simp
    then show ?thesis by (simp only: replicate_Suc replicate_append_same)
  qed
  then have "run ?f resolved_mount (replicate 9007199254740993 increment) = Inr ?H'"
    using r st by (simp add: run_append del: step.simps)
  then have "run ?f mount (Resolve # replicate 9007199254740993 increment) = Inr ?H'"
    by (simp only: run_from_mount)
  with c' d have "\<exists>H. run ?f mount (Resolve # replicate 9007199254740993 increment) = Inr H \<and>
        count (hooks H) = 9007199254740992 \<and>
        displayed_count ?f H = Some ''Count: 9007199254740992''" by blast
  moreover have "set (replicate 9007199254740993 increment) \<subseteq> {increment, decrement}" by auto
  ultimately show ?thesis using n by blast
qed


lemma activate_screen_Increment:
  "activate fmt ''Increment''
     (Fragment [Element ''h1'' [] [Leaf (JStr ''Hello from React component'')],
                Counter (Counter_props st)]) s =
     Some (Inr (s\<lparr>count := js_add (count st) 1\<rparr>))"
  by (simp add: activate_in_App activate_Counter_Increment get_prop_onIncrement dispatch_def
      setCount_def)

lemma activate_screen_Decrement:
  "activate fmt ''Decrement''
     (Fragment [Element ''h1'' [] [Leaf (JStr ''Hello from React component'')],
                Counter (Counter_props st)]) s =
     Some (Inr (s\<lparr>count := js_sub (count st) 1\<rparr>))"
  by (simp add: activate_in_App activate_Counter_Decrement get_prop_onDecrement dispatch_def
      setCount_def)

text \<open>
  Claim C3, amended. The callbacks on the screen were created by the render of the
  current state and use the count of that render: whatever the state is when it is
  called, the increment callback sets the count to the rendered count plus one, as
  JavaScript adds (one more than the rendered count whenever that is below
  \<open>2 ^ 53\<close>), and the decrement callback to the rendered count minus one (one less
  whenever that is above \<open>- 2 ^ 53\<close>). So calling the same rendered callback a second
  time, before a new render, changes nothing any more.
\<close>

theorem callbacks_use_the_rendered_count:
  assumes "reachable fmt H" and "remote H = Resolved"
  shows "\<exists>v. screen H = Rendered v \<and>
           (\<forall>s. activate fmt ''Increment'' v s =
                  Some (Inr (s\<lparr>count := js_add (count (hooks H)) 1\<rparr>))) \<and>
           (\<forall>s. activate fmt ''Decrement'' v s =
                  Some (Inr (s\<lparr>count := js_sub (count (hooks H)) 1\<rparr>))) \<and>
           (count (hooks H) < 2 ^ 53 \<longrightarrow> js_add (count (hooks H)) 1 = count (hooks H) + 1) \<and>
           (- (2 ^ 53) < count (hooks H) \<longrightarrow> js_sub (count (hooks H)) 1 = count (hooks H) - 1) \<and>
           (\<forall>s t. activate fmt ''Increment'' v s = Some (Inr t) \<longrightarrow>
                  activate fmt ''Increment'' v t = Some (Inr t)) \<and>
           (\<forall>s t. activate fmt ''Decrement'' v s = Some (Inr t) \<longrightarrow>
                  activate fmt ''Decrement'' v t = Some (Inr t))"
proof -
  from reachable_invariant [OF assms(1)]
  have s: "screen H = App (hooks H) (remote H)"
    and b: "\<bar>count (hooks H)\<bar> \<le> 9007199254740992" by simp_all
  let ?v = "Fragment [Element ''h1'' [] [Leaf (JStr ''Hello from React component'')],
                      Counter (Counter_props (hooks H))]"
  have v: "screen H = Rendered ?v" using s assms(2) by (simp add: App_Resolved)
  have i: "activate fmt ''Increment'' ?v s =
             Some (Inr (s\<lparr>count := js_add (count (hooks H)) 1\<rparr>))" for s
    by (rule activate_screen_Increment)
  have d: "activate fmt ''Decrement'' ?v s =
             Some (Inr (s\<lparr>count := js_sub (count (hooks H)) 1\<rparr>))" for s
    by (rule activate_screen_Decrement)
  have e1: "count (hooks H) < 2 ^ 53 \<longrightarrow> js_add (count (hooks H)) 1 = count (hooks H) + 1"
    using b by (simp add: js_add_1_exact)
  have e2: "- (2 ^ 53) < count (hooks H) \<longrightarrow> js_sub (count (hooks H)) 1 = count (hooks H) - 1"
    using b by (simp add: js_sub_1_exact)
  have t1: "\<forall>s t. activate fmt ''Increment'' ?v s = Some (Inr t) \<longrightarrow>
                  activate fmt ''Increment'' ?v t = Some (Inr t)"
    by (auto simp add: i)
  have t2: "\<forall>s t. activate fmt ''Decrement'' ?v s = Some (Inr t) \<longrightarrow>
                  activate fmt ''Decrement'' ?v t = Some (Inr t)"
    by (auto simp add: d)
  from v i d e1 e2 t1 t2 show ?thesis by blast
qed

theorem callbacks_use_the_rendered_count_witness:
  "\<exists>v. screen resolved_mount = Rendered v \<and>
      activate (\<lambda>q. []) ''Increment'' v \<lparr>count = 0\<rparr> = Some (Inr \<lparr>count = 1\<rparr>) \<and>
      activate (\<lambda>q. []) ''Increment'' v \<lparr>count = 1\<rparr> = Some (Inr \<lparr>count = 1\<rparr>) \<and>
      activate (\<lambda>q. []) ''Increment'' v \<lparr>count = 40\<rparr> = Some (Inr \<lparr>count = 1\<rparr>) \<and>
      activate (\<lambda>q. []) ''Decrement'' v \<lparr>count = 40\<rparr> = Some (Inr \<lparr>count = - 1\<rparr>)"
proof -
  from callbacks_use_the_rendered_count
    [OF reachable_resolved_mount resolved_mount_simps(1), of "\<lambda>q. []"]
  obtain v where v: "screen resolved_mount = Rendered v"
    and i: "\<And>s. activate (\<lambda>q. []) ''Increment'' v s =
                  Some (Inr (s\<lparr>count := js_add (count (hooks resolved_mount)) 1\<rparr>))"
    and d: "\<And>s. activate (\<lambda>q. []) ''Decrement'' v s =
                  Some (Inr (s\<lparr>count := js_sub (count (hooks resolved_mount)) 1\<rparr>))"
    and a: "count (hooks resolved_mount) < 2 ^ 53 \<longrightarrow>
              js_add (count (hooks resolved_mount)) 1 = count (hooks resolved_mount) + 1"
    and s: "- (2 ^ 53) < count (hooks resolved_mount) \<longrightarrow>
              js_sub (count (hooks resolved_mount)) 1 = count (hooks resolved_mount) - 1"
    by blast
  from a s have "js_add 0 1 = 1" "js_sub 0 1 = - 1" by (simp_all add: resolved_mount_simps(4))
  then show ?thesis using v i d by (simp add: resolved_mount_simps(4))
qed

text \<open>
  Claim C3 as stated, that the increment callback always sets the count to one more
  than the rendered count, fails at the rendered count \<open>2 ^ 53\<close>, which the host
  reaches: there the callback sets the count to \<open>2 ^ 53\<close> again.
\<close>

theorem callback_at_2_53_adds_nothing:
  "\<exists>H v. reachable (\<lambda>q. []) H \<and> remote H = Resolved \<and> screen H = Rendered v \<and>
      count (hooks H) = 9007199254740992 \<and>
      activate (\<lambda>q. []) ''Increment'' v (hooks H) = Some (Inr \<lparr>count = 9007199254740992\<rparr>)"
proof -
  from reach_count [of 9007199254740992 "\<lambda>q. []"] obtain H where
    r: "reachable (\<lambda>q. []) H" and res: "remote H = Resolved"
    and c: "count (hooks H) = 9007199254740992" by auto
  from reachable_invariant [OF r] res
  have v: "screen H =
      Rendered (Fragment [Element ''h1'' [] [Leaf (JStr ''Hello from React component'')],
                          Counter (Counter_props (hooks H))])"
    by (simp add: App_Resolved)
  have "activate (\<lambda>q. []) ''Increment''
      (Fragment [Element ''h1'' [] [Leaf (JStr ''Hello from React component'')],
                 Counter (Counter_props (hooks H))]) (hooks H) =
      Some (Inr \<lparr>count = 9007199254740992\<rparr>)"
    using c by (simp only: activate_screen_Increment js_add_1_limit) simp
  with r res v c show ?thesis by blast
qed

text \<open>
  Claim C5, amended. In every reachable state the count is an integer of magnitude at
  most \<open>2 ^ 53\<close>. A step changes it only if it is an \<open>increment\<close>, and then by
  exactly \<open>+1\<close>, or a \<open>decrement\<close>, and then by exactly \<open>-1\<close>; once the remote has
  resolved, an increment below \<open>2 ^ 53\<close> and a decrement above \<open>- 2 ^ 53\<close> do
  change it so. No other bound is enforced: every integer from \<open>- 2 ^ 53\<close> to
  \<open>2 ^ 53\<close> is the count of a reachable state.
\<close>

theorem count_changes_by_one_within_range:
  assumes "reachable fmt H" and "step fmt H e = Inr H'"
  shows "\<bar>count (hooks H)\<bar> \<le> 2 ^ 53 \<and>
         (count (hooks H') \<noteq> count (hooks H) \<longrightarrow>
            (e = increment \<and> count (hooks H') = count (hooks H) + 1) \<or>
            (e = decrement \<and> count (hooks H') = count (hooks H) - 1)) \<and>
         (e = increment \<and> remote H = Resolved \<and> count (hooks H) < 2 ^ 53 \<longrightarrow>
            count (hooks H') = count (hooks H) + 1) \<and>
         (e = decrement \<and> remote H = Resolved \<and> - (2 ^ 53) < count (hooks H) \<longrightarrow>
            count (hooks H') = count (hooks H) - 1) \<and>
         (\<forall>n. \<bar>n\<bar> \<le> 2 ^ 53 \<longrightarrow> (\<exists>G. reachable fmt G \<and> count (hooks G) = n))"
proof -
  from reachable_invariant [OF assms(1)]
  have s: "screen H = App (hooks H) (remote H)"
    and b: "\<bar>count (hooks H)\<bar> \<le> 9007199254740992" by simp_all
  let ?c = "count (hooks H)"
  have add: "js_add ?c 1 = ?c + 1 \<or> js_add ?c 1 = ?c"
    using b js_add_1_exact [of ?c] js_add_1_limit by (cases "?c = 9007199254740992") auto
  have sub: "js_sub ?c 1 = ?c - 1 \<or> js_sub ?c 1 = ?c"
    using b js_sub_1_exact [of ?c] js_sub_1_limit by (cases "?c = - 9007199254740992") auto
  have changed: "count (hooks H') \<noteq> ?c \<longrightarrow>
            (e = increment \<and> count (hooks H') = ?c + 1) \<or>
            (e = decrement \<and> count (hooks H') = ?c - 1)"
    using step_cases [OF s assms(2)] add sub by (auto simp add: render_simps)
  have inc: "e = increment \<and> remote H = Resolved \<and> ?c < 2 ^ 53 \<longrightarrow> count (hooks H') = ?c + 1"
  proof (intro impI, elim conjE)
    assume e: "e = increment" and r: "remote H = Resolved" and l: "?c < 2 ^ 53"
    from r s have "screen H = App (hooks H) Resolved" by simp
    from step_increment_Resolved [OF r this, of fmt] assms(2) e
    have "H' = render (H\<lparr>hooks := (hooks H)\<lparr>count := js_add ?c 1\<rparr>\<rparr>)" by simp
    then show "count (hooks H') = ?c + 1"
      using b l by (simp add: render_simps js_add_1_exact)
  qed
  have dec: "e = decrement \<and> remote H = Resolved \<and> - (2 ^ 53) < ?c \<longrightarrow> count (hooks H') = ?c - 1"
  proof (intro impI, elim conjE)
    assume e: "e = decrement" and r: "remote H = Resolved" and l: "- (2 ^ 53) < ?c"
    from r s have "screen H = App (hooks H) Resolved" by simp
    from step_decrement_Resolved [OF r this, of fmt] assms(2) e
    have "H' = render (H\<lparr>hooks := (hooks H)\<lparr>count := js_sub ?c 1\<rparr>\<rparr>)" by simp
    then show "count (hooks H') = ?c - 1"
      using b l by (simp add: render_simps js_sub_1_exact)
  qed
  have all: "\<forall>n. \<bar>n\<bar> \<le> 2 ^ 53 \<longrightarrow> (\<exists>G. reachable fmt G \<and> count (hooks G) = n)"
  proof (intro allI impI)
    fix n :: int assume "\<bar>n\<bar> \<le> 2 ^ 53"
    then have "\<bar>n\<bar> \<le> 9007199254740992" by simp
    from reach_count [OF this, of fmt] show "\<exists>G. reachable fmt G \<and> count (hooks G) = n" by blast
  qed
  from b have "\<bar>?c\<bar> \<le> 2 ^ 53" by simp
  with changed inc dec all show ?thesis by blast
qed

theorem count_changes_by_one_within_range_witness:
  "\<exists>H'. step (\<lambda>q. []) resolved_mount increment = Inr H' \<and> count (hooks H') = 1 \<and>
      (\<exists>G. reachable (\<lambda>q. []) G \<and> count (hooks G) = - 5) \<and>
      (\<exists>G. reachable (\<lambda>q. []) G \<and> count (hooks G) = 2 ^ 53)"
proof -
  let ?H' = "render (resolved_mount\<lparr>hooks := (hooks resolved_mount)
               \<lparr>count := js_add (count (hooks resolved_mount)) 1\<rparr>\<rparr>)"
  have st: "step (\<lambda>q. []) resolved_mount increment = Inr ?H'"
    using resolved_mount_simps(1) resolved_mount_simps(3) by (rule step_increment_Resolved)
  from count_changes_by_one_within_range [OF reachable_resolved_mount st]
  have "count (hooks ?H') = 1"
    and "\<forall>n. \<bar>n\<bar> \<le> 2 ^ 53 \<longrightarrow> (\<exists>G. reachable (\<lambda>q. []) G \<and> count (hooks G) = n)"
    by (simp_all add: resolved_mount_simps initial_state_def)
  then have "count (hooks ?H') = 1"
    and "\<exists>G. reachable (\<lambda>q. []) G \<and> count (hooks G) = - 5"
    and "\<exists>G. reachable (\<lambda>q. []) G \<and> count (hooks G) = 2 ^ 53"
    by simp_all
  with st show ?thesis by blast
qed

text \<open>
  Claim C5 as stated, that every increment gives \<open>count + 1\<close> and the count may grow
  without bound, fails in the reachable state with count \<open>2 ^ 53\<close>: the increment
  leaves the count as it is.
\<close>

theorem increment_at_2_53_changes_nothing:
  "\<exists>H H'. reachable (\<lambda>q. []) H \<and> count (hooks H) = 9007199254740992 \<and>
      step (\<lambda>q. []) H increment = Inr H' \<and> count (hooks H') = 9007199254740992"
proof -
  from reach_count [of 9007199254740992 "\<lambda>q. []"] obtain H where
    r: "reachable (\<lambda>q. []) H" and res: "remote H = Resolved"
    and c: "count (hooks H) = 9007199254740992" by auto
  from reachable_invariant [OF r] res
  have "screen H = App (hooks H) Resolved" by simp
  with res have "step (\<lambda>q. []) H increment =
      Inr (render (H\<lparr>hooks := (hooks H)\<lparr>count := js_add (count (hooks H)) 1\<rparr>\<rparr>))"
    by (rule step_increment_Resolved)
  moreover have "count (hooks (render (H\<lparr>hooks := (hooks H)\<lparr>count := js_add (count (hooks H)) 1\<rparr>\<rparr>)))
      = 9007199254740992"
    using c by (simp add: render_simps js_add_1_limit)
  ultimately show ?thesis using r c by blast
qed

end
